theory Spec2Isabelle
  imports Complex_Main "HOL-Library.AList" "HOL-Library.Multiset" "HOL-Library.Log_Nat"
    "HOL-Library.Product_Lexorder"
begin

section \<open>Budget routes of the travel-planning backend: expense settlement\<close>

text \<open>
  The model follows the budget router (mounted at \<^verbatim>\<open>/api/budget\<close>; in the source tree it
  is the last part of \<^verbatim>\<open>src/routes/packingTemplates.js\<close>, lines 202 to 431): the handler
  \<^verbatim>\<open>GET /:tripId\<close> (net balances, greedy matching of debtors and creditors, totals) and
  the handler \<^verbatim>\<open>DELETE /:tripId/expense/:expenseId\<close>.

  Numbers. JavaScript numbers are IEEE doubles. The handler is modelled twice. In the
  first model an amount is an exact rational (\<^typ>\<open>rat\<close>) and the thresholds \<^verbatim>\<open>0.01\<close> of the
  source are the rational \<open>1/100\<close>: this is the arithmetic the settlement is meant to
  carry out, and the properties that do not depend on rounding are proved there. In the
  second model (the definitions with the suffix \<open>_f64\<close>) an amount is a double: every
  operation is rounded to the nearest double, ties to even, and overflows to an infinity,
  with \<^verbatim>\<open>NaN\<close> where the standard says so. What rounding and overflow do to the handler is
  proved there.

  Identifiers. Row identifiers are text keys generated by the database layer; they are
  strings here. A JavaScript object lists its string keys in insertion order as long as no
  key is an array index, and the lookups \<^verbatim>\<open>balances[id]\<close> of the source see own keys only as
  long as no identifier is the name of a member of \<^verbatim>\<open>Object.prototype\<close>; generated keys are
  neither, and the model assumes so.
\<close>

subsection \<open>Rows of the database\<close>

record plannedTrip =
  trip_id :: string
  trip_userId :: string

record tripBudget =
  budget_id :: string
  budget_tripId :: string
  totalBudget :: rat
  currency :: string

record tripParticipant =
  participant_id :: string
  participant_budgetId :: string
  participant_name :: string

record expense =
  expense_id :: string
  expense_budgetId :: string
  expense_amount :: rat
  category :: string
  description :: string
  expense_date :: nat
  paidById :: string
  splitWithIds :: "string list"

record database =
  plannedTrips :: "plannedTrip list"
  tripBudgets :: "tripBudget list"
  tripParticipants :: "tripParticipant list"
  db_expenses :: "expense list"

text \<open>
  A budget as the query of the handler loads it: the row, with the participants and the
  expenses of the budget included.
\<close>

record budget = tripBudget +
  participants :: "tripParticipant list"
  expenses :: "expense list"

subsection \<open>Values the handler builds\<close>

text \<open>The value stored under a participant identifier in \<^verbatim>\<open>balances\<close>.\<close>

record balance =
  name :: string
  amount :: rat

text \<open>
  The object \<^verbatim>\<open>balances\<close>: keys in insertion order, each key once. Assigning to a key that
  exists keeps its position (\<open>AList.update\<close>); changing the value under a key that is
  absent does nothing (\<open>AList.map_entry\<close>), which is the guard \<^verbatim>\<open>if (balances[id])\<close>.
\<close>

type_synonym balances = "(string \<times> balance) list"

text \<open>An element of \<^verbatim>\<open>debtors\<close> or \<^verbatim>\<open>creditors\<close>.\<close>

record party =
  party_id :: string
  party_name :: string
  party_amount :: rat

text \<open>An element of \<^verbatim>\<open>debts\<close>.\<close>

record debt =
  debt_from :: string
  debt_to :: string
  debt_amount :: rat

text \<open>The variables of the matching loop.\<close>

record loop_state =
  debtors :: "party list"
  creditors :: "party list"
  debtor_index :: nat
  creditor_index :: nat
  debts :: "debt list"

record budget_stats =
  stats_budget :: budget
  totalSpent :: rat
  remaining :: rat
  stats_debts :: "debt list"

datatype response =
  Error_json nat string
  | NotSetup_json
  | Budget_json budget_stats
  | Success_json

subsection \<open>Step 1 of the handler: net balance of each participant\<close>

definition init_balances :: "tripParticipant list \<Rightarrow> balances" where
  "init_balances ps =
     fold (\<lambda>p bs. AList.update (participant_id p) \<lparr>name = participant_name p, amount = 0\<rparr> bs) ps []"

definition add_amount :: "rat \<Rightarrow> balance \<Rightarrow> balance" where
  "add_amount d b = b\<lparr>amount := amount b + d\<rparr>"

definition apply_expense :: "expense \<Rightarrow> balances \<Rightarrow> balances" where
  "apply_expense e bs =
     (let payerId = paidById e;
          amt = expense_amount e;
          splitBetween = splitWithIds e
      in if length splitBetween > 0 then
           let splitAmount = amt / of_nat (length splitBetween);
               bs1 = AList.map_entry payerId (add_amount amt) bs
           in fold (\<lambda>k b. AList.map_entry k (add_amount (- splitAmount)) b) splitBetween bs1
         else bs)"

definition compute_balances :: "tripParticipant list \<Rightarrow> expense list \<Rightarrow> balances" where
  "compute_balances ps es = fold apply_expense es (init_balances ps)"

definition balance_sum :: "balances \<Rightarrow> rat" where
  "balance_sum bs = sum_list (map (\<lambda>kv. amount (snd kv)) bs)"

subsection \<open>Step 2 of the handler: resolving debts\<close>

definition to_party :: "string \<times> balance \<Rightarrow> party" where
  "to_party kv = \<lparr>party_id = fst kv, party_name = name (snd kv), party_amount = amount (snd kv)\<rparr>"

definition collect_debtors :: "balances \<Rightarrow> party list" where
  "collect_debtors bs = map to_party (filter (\<lambda>kv. amount (snd kv) < - (1/100)) bs)"

definition collect_creditors :: "balances \<Rightarrow> party list" where
  "collect_creditors bs = map to_party (filter (\<lambda>kv. amount (snd kv) > 1/100) bs)"

text \<open>
  \<^verbatim>\<open>Number(x.toFixed(2))\<close>: the multiple of \<open>1/100\<close> nearest to \<open>x\<close>, the larger one of two
  that are equally near; a negative \<open>x\<close> is rounded as \<open>- x\<close> is and the sign put back.
\<close>

definition toFixed2 :: "rat \<Rightarrow> rat" where
  "toFixed2 x =
     (if x < 0 then - (of_int \<lfloor>(- x) * 100 + 1/2\<rfloor> / 100)
      else of_int \<lfloor>x * 100 + 1/2\<rfloor> / 100)"

text \<open>The loop condition and one run of the loop body.\<close>

definition loop_cond :: "loop_state \<Rightarrow> bool" where
  "loop_cond s \<longleftrightarrow>
     debtor_index s < length (debtors s) \<and> creditor_index s < length (creditors s)"

definition loop_body :: "loop_state \<Rightarrow> loop_state" where
  "loop_body s =
     (let debtor = debtors s ! debtor_index s;
          creditor = creditors s ! creditor_index s;
          amt = min \<bar>party_amount debtor\<bar> (party_amount creditor);
          debts' = (if amt > 1/100
                    then debts s @ [\<lparr>debt_from = party_name debtor, debt_to = party_name creditor,
                                      debt_amount = toFixed2 amt\<rparr>]
                    else debts s);
          debtor' = debtor\<lparr>party_amount := party_amount debtor + amt\<rparr>;
          creditor' = creditor\<lparr>party_amount := party_amount creditor - amt\<rparr>
      in \<lparr>debtors = (debtors s)[debtor_index s := debtor'],
          creditors = (creditors s)[creditor_index s := creditor'],
          debtor_index = (if \<bar>party_amount debtor'\<bar> < 1/100
                          then debtor_index s + 1 else debtor_index s),
          creditor_index = (if party_amount creditor' < 1/100
                            then creditor_index s + 1 else creditor_index s),
          debts = debts'\<rparr>)"

text \<open>
  The \<^verbatim>\<open>while\<close> loop. Its value is \<open>None\<close> when the loop does not end; that it always
  ends (on the lists the handler builds) is proved below.
\<close>

partial_function (option) resolve_loop :: "loop_state \<Rightarrow> loop_state option" where
  "resolve_loop s = (if loop_cond s then resolve_loop (loop_body s) else Some s)"

declare resolve_loop.simps [code]

text \<open>
  \<^verbatim>\<open>Array.prototype.sort\<close> is the engine's; the handler is defined for any sort function
  \<open>srt\<close>, called with the key the comparator orders by: \<^verbatim>\<open>(a, b) => a.amount - b.amount\<close>
  is ascending in \<open>amount\<close>, \<^verbatim>\<open>(a, b) => b.amount - a.amount\<close> is ascending in \<open>- amount\<close>.
\<close>

type_synonym sorter = "(party \<Rightarrow> rat) \<Rightarrow> party list \<Rightarrow> party list"

definition init_state :: "sorter \<Rightarrow> balances \<Rightarrow> loop_state" where
  "init_state srt bs =
     \<lparr>debtors = srt party_amount (collect_debtors bs),
      creditors = srt (\<lambda>c. - party_amount c) (collect_creditors bs),
      debtor_index = 0, creditor_index = 0, debts = []\<rparr>"

definition resolve_debts_with :: "sorter \<Rightarrow> balances \<Rightarrow> loop_state option" where
  "resolve_debts_with srt bs = resolve_loop (init_state srt bs)"

text \<open>
  The language standard requires the sort to be stable (elements that compare equal keep
  their order), which fixes its result: it is the stable insertion sort \<open>sort_key\<close>.
\<close>

definition resolve_debts :: "balances \<Rightarrow> loop_state option" where
  "resolve_debts bs = resolve_debts_with sort_key bs"

subsection \<open>The handlers\<close>

definition compute_totalSpent :: "expense list \<Rightarrow> rat" where
  "compute_totalSpent es = foldl (\<lambda>sum e. sum + expense_amount e) 0 es"

text \<open>The computation of the handler on a loaded budget.\<close>

definition settlement_with :: "sorter \<Rightarrow> budget \<Rightarrow> budget_stats option" where
  "settlement_with srt b =
     (case resolve_debts_with srt (compute_balances (participants b) (expenses b)) of
        None \<Rightarrow> None
      | Some s \<Rightarrow>
          Some \<lparr>stats_budget = b,
                totalSpent = compute_totalSpent (expenses b),
                remaining = totalBudget b - compute_totalSpent (expenses b),
                stats_debts = debts s\<rparr>)"


text \<open>
  The two queries of the handler. Expenses come back by date, latest first; among equal
  dates the database chooses, modelled as the order of the table.
\<close>

definition find_trip :: "database \<Rightarrow> string \<Rightarrow> plannedTrip option" where
  "find_trip db tripId = find (\<lambda>t. trip_id t = tripId) (plannedTrips db)"

definition load_budget :: "database \<Rightarrow> string \<Rightarrow> budget option" where
  "load_budget db tripId =
     (case find (\<lambda>b. budget_tripId b = tripId) (tripBudgets db) of
        None \<Rightarrow> None
      | Some b \<Rightarrow>
          Some \<lparr>budget_id = budget_id b, budget_tripId = budget_tripId b,
                totalBudget = totalBudget b, currency = currency b,
                participants = filter (\<lambda>p. participant_budgetId p = budget_id b) (tripParticipants db),
                expenses = sort_key (\<lambda>e. - int (expense_date e))
                             (filter (\<lambda>e. expense_budgetId e = budget_id b) (db_expenses db))\<rparr>)"

text \<open>
  \<^verbatim>\<open>GET /:tripId\<close> for the authenticated caller \<open>userId\<close>. The result is \<open>None\<close> when the
  matching loop does not end.
\<close>

definition get_budget_with :: "sorter \<Rightarrow> database \<Rightarrow> string \<Rightarrow> string \<Rightarrow> response option" where
  "get_budget_with srt db userId tripId =
     (case find_trip db tripId of
        None \<Rightarrow> Some (Error_json 404 ''Trip not found'')
      | Some plannedTrip \<Rightarrow>
          if trip_userId plannedTrip \<noteq> userId
          then Some (Error_json 403 ''Not authorized to view this budget'')
          else (case load_budget db tripId of
                  None \<Rightarrow> Some NotSetup_json
                | Some b \<Rightarrow> map_option Budget_json (settlement_with srt b)))"

definition get_budget :: "database \<Rightarrow> string \<Rightarrow> string \<Rightarrow> response option" where
  "get_budget db userId tripId = get_budget_with sort_key db userId tripId"

text \<open>
  \<^verbatim>\<open>DELETE /:tripId/expense/:expenseId\<close> for the authenticated caller \<open>userId\<close>: the row
  with the identifier is deleted; when there is none the delete call throws and the
  handler answers 500.
\<close>

definition delete_expense :: "database \<Rightarrow> string \<Rightarrow> string \<Rightarrow> string \<Rightarrow> response \<times> database" where
  "delete_expense db userId tripId expenseId =
     (if \<exists>e \<in> set (db_expenses db). expense_id e = expenseId
      then (Success_json, db\<lparr>db_expenses := filter (\<lambda>e. expense_id e \<noteq> expenseId) (db_expenses db)\<rparr>)
      else (Error_json 500 ''Failed to delete expense'', db))"

subsection \<open>The same handler over doubles\<close>

text \<open>
  A double is a finite value, an infinity or \<^verbatim>\<open>NaN\<close>. A finite value is the rational it
  stands for; the two zeros are not told apart (the handler never divides by an amount and
  never looks at the sign of a zero).
\<close>

datatype f64 = Finite rat | PosInf | NegInf | NaN

text \<open>
  Rounding an exact result to the nearest double, ties to even: \<open>exponent_of x\<close> is the
  integer \<open>e\<close> with \<open>2 ^ e \<le> \<bar>x\<bar> < 2 ^ (e + 1)\<close>, the doubles around \<open>x\<close> are the multiples of
  \<open>2 ^ (e - 52)\<close> (of \<open>2 ^ - 1074\<close> below the normal range), and a result of magnitude
  \<open>2 ^ 1024\<close> or more is an infinity.
\<close>

definition exponent_of :: "rat \<Rightarrow> int" where
  "exponent_of x =
     (let a = bitlen (fst (quotient_of \<bar>x\<bar>)) - bitlen (snd (quotient_of \<bar>x\<bar>))
      in if 2 powi a \<le> \<bar>x\<bar> then a else a - 1)"

definition round_even :: "rat \<Rightarrow> int" where
  "round_even x =
     (let f = \<lfloor>x\<rfloor>; r = x - of_int f
      in if r < 1/2 then f else if 1/2 < r then f + 1 else if even f then f else f + 1)"

definition round_f64 :: "rat \<Rightarrow> f64" where
  "round_f64 x =
     (if x = 0 then Finite 0
      else let e = max (exponent_of x) (- 1022);
               u = 2 powi (e - 52);
               y = of_int (round_even (x / u)) * u
           in if 2 powi 1024 \<le> \<bar>y\<bar> then (if 0 < x then PosInf else NegInf) else Finite y)"

text \<open>The operations the handler uses, as the language standard defines them.\<close>

fun f64_neg :: "f64 \<Rightarrow> f64" where
  "f64_neg (Finite a) = Finite (- a)"
| "f64_neg PosInf = NegInf"
| "f64_neg NegInf = PosInf"
| "f64_neg NaN = NaN"

fun f64_add :: "f64 \<Rightarrow> f64 \<Rightarrow> f64" where
  "f64_add NaN y = NaN"
| "f64_add x NaN = NaN"
| "f64_add PosInf NegInf = NaN"
| "f64_add NegInf PosInf = NaN"
| "f64_add PosInf y = PosInf"
| "f64_add NegInf y = NegInf"
| "f64_add x PosInf = PosInf"
| "f64_add x NegInf = NegInf"
| "f64_add (Finite a) (Finite b) = round_f64 (a + b)"

definition f64_sub :: "f64 \<Rightarrow> f64 \<Rightarrow> f64" where
  "f64_sub x y = f64_add x (f64_neg y)"

text \<open>\<^verbatim>\<open>amount / splitBetween.length\<close>, where the length is a positive integer.\<close>

fun f64_div_count :: "f64 \<Rightarrow> nat \<Rightarrow> f64" where
  "f64_div_count (Finite a) n = round_f64 (a / of_nat n)"
| "f64_div_count x n = x"

fun f64_less :: "f64 \<Rightarrow> f64 \<Rightarrow> bool" where
  "f64_less NaN y = False"
| "f64_less x NaN = False"
| "f64_less PosInf y = False"
| "f64_less x NegInf = False"
| "f64_less NegInf y = True"
| "f64_less x PosInf = True"
| "f64_less (Finite a) (Finite b) = (a < b)"

fun f64_abs :: "f64 \<Rightarrow> f64" where
  "f64_abs (Finite a) = Finite \<bar>a\<bar>"
| "f64_abs NegInf = PosInf"
| "f64_abs x = x"

fun f64_min :: "f64 \<Rightarrow> f64 \<Rightarrow> f64" where
  "f64_min NaN y = NaN"
| "f64_min x NaN = NaN"
| "f64_min x y = (if f64_less y x then y else x)"

text \<open>
  \<^verbatim>\<open>Number(x.toFixed(2))\<close>: the decimal rounding of the exact value of the double, parsed
  back to the nearest double; from \<open>10 ^ 21\<close> on, and for an infinity or \<^verbatim>\<open>NaN\<close>, the
  string is that of the number itself.
\<close>

fun f64_toFixed2 :: "f64 \<Rightarrow> f64" where
  "f64_toFixed2 (Finite a) = (if 10 ^ 21 \<le> \<bar>a\<bar> then Finite a else round_f64 (toFixed2 a))"
| "f64_toFixed2 x = x"

text \<open>
  The comparators \<^verbatim>\<open>a.amount - b.amount\<close> and \<^verbatim>\<open>b.amount - a.amount\<close> order by the amount:
  a difference of two doubles is zero only when they are equal and has the sign of the
  exact difference otherwise, and \<^verbatim>\<open>NaN\<close> (from two equal infinities) counts as zero. The
  key puts the amounts in that order.
\<close>

fun f64_key :: "f64 \<Rightarrow> int \<times> rat" where
  "f64_key NegInf = (- 1, 0)"
| "f64_key (Finite a) = (0, a)"
| "f64_key PosInf = (1, 0)"
| "f64_key NaN = (2, 0)"

text \<open>The literal \<^verbatim>\<open>0.01\<close>.\<close>

definition f64_eps :: f64 where
  "f64_eps = round_f64 (1/100)"

record balance_f64 =
  name_f64 :: string
  amount_f64 :: f64

type_synonym balances_f64 = "(string \<times> balance_f64) list"

record party_f64 =
  party_id_f64 :: string
  party_name_f64 :: string
  party_amount_f64 :: f64

record debt_f64 =
  debt_from_f64 :: string
  debt_to_f64 :: string
  debt_amount_f64 :: f64

record loop_state_f64 =
  debtors_f64 :: "party_f64 list"
  creditors_f64 :: "party_f64 list"
  debtor_index_f64 :: nat
  creditor_index_f64 :: nat
  debts_f64 :: "debt_f64 list"

text \<open>
  The amount of an expense row is the double nearest to the decimal the client sent
  (\<^verbatim>\<open>parseFloat\<close> when the expense is recorded).
\<close>

definition init_balances_f64 :: "tripParticipant list \<Rightarrow> balances_f64" where
  "init_balances_f64 ps =
     fold (\<lambda>p bs. AList.update (participant_id p)
                    \<lparr>name_f64 = participant_name p, amount_f64 = Finite 0\<rparr> bs) ps []"

definition apply_expense_f64 :: "expense \<Rightarrow> balances_f64 \<Rightarrow> balances_f64" where
  "apply_expense_f64 e bs =
     (let payerId = paidById e;
          amt = round_f64 (expense_amount e);
          splitBetween = splitWithIds e
      in if length splitBetween > 0 then
           let splitAmount = f64_div_count amt (length splitBetween);
               bs1 = AList.map_entry payerId
                       (\<lambda>b. b\<lparr>amount_f64 := f64_add (amount_f64 b) amt\<rparr>) bs
           in fold (\<lambda>k b. AList.map_entry k
                       (\<lambda>b. b\<lparr>amount_f64 := f64_sub (amount_f64 b) splitAmount\<rparr>) b)
                splitBetween bs1
         else bs)"

definition compute_balances_f64 :: "tripParticipant list \<Rightarrow> expense list \<Rightarrow> balances_f64" where
  "compute_balances_f64 ps es = fold apply_expense_f64 es (init_balances_f64 ps)"

definition to_party_f64 :: "string \<times> balance_f64 \<Rightarrow> party_f64" where
  "to_party_f64 kv =
     \<lparr>party_id_f64 = fst kv, party_name_f64 = name_f64 (snd kv),
      party_amount_f64 = amount_f64 (snd kv)\<rparr>"

definition collect_debtors_f64 :: "balances_f64 \<Rightarrow> party_f64 list" where
  "collect_debtors_f64 bs =
     map to_party_f64 (filter (\<lambda>kv. f64_less (amount_f64 (snd kv)) (f64_neg f64_eps)) bs)"

definition collect_creditors_f64 :: "balances_f64 \<Rightarrow> party_f64 list" where
  "collect_creditors_f64 bs =
     map to_party_f64 (filter (\<lambda>kv. f64_less f64_eps (amount_f64 (snd kv))) bs)"

definition loop_cond_f64 :: "loop_state_f64 \<Rightarrow> bool" where
  "loop_cond_f64 s \<longleftrightarrow>
     debtor_index_f64 s < length (debtors_f64 s) \<and>
     creditor_index_f64 s < length (creditors_f64 s)"

definition loop_body_f64 :: "loop_state_f64 \<Rightarrow> loop_state_f64" where
  "loop_body_f64 s =
     (let debtor = debtors_f64 s ! debtor_index_f64 s;
          creditor = creditors_f64 s ! creditor_index_f64 s;
          amt = f64_min (f64_abs (party_amount_f64 debtor)) (party_amount_f64 creditor);
          debts' = (if f64_less f64_eps amt
                    then debts_f64 s @ [\<lparr>debt_from_f64 = party_name_f64 debtor,
                                          debt_to_f64 = party_name_f64 creditor,
                                          debt_amount_f64 = f64_toFixed2 amt\<rparr>]
                    else debts_f64 s);
          debtor' = debtor\<lparr>party_amount_f64 := f64_add (party_amount_f64 debtor) amt\<rparr>;
          creditor' = creditor\<lparr>party_amount_f64 := f64_sub (party_amount_f64 creditor) amt\<rparr>
      in \<lparr>debtors_f64 = (debtors_f64 s)[debtor_index_f64 s := debtor'],
          creditors_f64 = (creditors_f64 s)[creditor_index_f64 s := creditor'],
          debtor_index_f64 = (if f64_less (f64_abs (party_amount_f64 debtor')) f64_eps
                              then debtor_index_f64 s + 1 else debtor_index_f64 s),
          creditor_index_f64 = (if f64_less (party_amount_f64 creditor') f64_eps
                                then creditor_index_f64 s + 1 else creditor_index_f64 s),
          debts_f64 = debts'\<rparr>)"

partial_function (option) resolve_loop_f64 :: "loop_state_f64 \<Rightarrow> loop_state_f64 option" where
  "resolve_loop_f64 s = (if loop_cond_f64 s then resolve_loop_f64 (loop_body_f64 s) else Some s)"

definition init_state_f64 :: "balances_f64 \<Rightarrow> loop_state_f64" where
  "init_state_f64 bs =
     \<lparr>debtors_f64 = sort_key (\<lambda>d. f64_key (party_amount_f64 d)) (collect_debtors_f64 bs),
      creditors_f64 = sort_key (\<lambda>c. f64_key (f64_neg (party_amount_f64 c)))
                        (collect_creditors_f64 bs),
      debtor_index_f64 = 0, creditor_index_f64 = 0, debts_f64 = []\<rparr>"

definition resolve_debts_f64 :: "balances_f64 \<Rightarrow> loop_state_f64 option" where
  "resolve_debts_f64 bs = resolve_loop_f64 (init_state_f64 bs)"

declare resolve_loop_f64.simps [code]

subsection \<open>Notions used to state the properties\<close>

text \<open>Every payer and every member of every split is a participant of the budget.\<close>

definition known_participants :: "tripParticipant list \<Rightarrow> expense list \<Rightarrow> bool" where
  "known_participants ps es \<longleftrightarrow>
     list_all (\<lambda>e. paidById e \<in> set (map participant_id ps) \<and>
                   list_all (\<lambda>k. k \<in> set (map participant_id ps)) (splitWithIds e)) es"

text \<open>The local \<^verbatim>\<open>amount\<close> of one run of the loop body.\<close>

definition matched_amount :: "loop_state \<Rightarrow> rat" where
  "matched_amount s =
     min \<bar>party_amount (debtors s ! debtor_index s)\<bar> (party_amount (creditors s ! creditor_index s))"

text \<open>The states the loop goes through from a given one.\<close>

inductive loop_reaches :: "loop_state \<Rightarrow> loop_state \<Rightarrow> bool" where
  start: "loop_reaches s s"
| step: "loop_reaches s t \<Longrightarrow> loop_cond t \<Longrightarrow> loop_reaches s (loop_body t)"

definition debtors_nonpos :: "loop_state \<Rightarrow> bool" where
  "debtors_nonpos s \<longleftrightarrow> list_all (\<lambda>d. party_amount d \<le> 0) (debtors s)"







text \<open>
  Applying a transfer as the specification words it: its amount is subtracted from the
  balance of the participant it goes to and added to the balance of the participant it
  comes from. All balances are settled when each is within \<open>1/100\<close> of zero.
\<close>

definition apply_transfer :: "debt \<Rightarrow> balances \<Rightarrow> balances" where
  "apply_transfer d bs =
     map (\<lambda>kv. (fst kv, (snd kv)\<lparr>amount := amount (snd kv)
                   + (if name (snd kv) = debt_from d then debt_amount d else 0)
                   - (if name (snd kv) = debt_to d then debt_amount d else 0)\<rparr>)) bs"

definition apply_transfers :: "debt list \<Rightarrow> balances \<Rightarrow> balances" where
  "apply_transfers ds bs = fold apply_transfer ds bs"

definition all_settled :: "balances \<Rightarrow> bool" where
  "all_settled bs \<longleftrightarrow> list_all (\<lambda>kv. \<bar>amount (snd kv)\<bar> \<le> 1/100) bs"

definition settled_after :: "balances \<Rightarrow> loop_state \<Rightarrow> bool" where
  "settled_after bs s \<longleftrightarrow> all_settled (apply_transfers (debts s) bs)"



text \<open>
  What the transfers of a list give to the participant of a name: the amounts it is the
  \<open>from\<close> of, less the amounts it is the \<open>to\<close> of.
\<close>

definition net_transfer :: "debt list \<Rightarrow> string \<Rightarrow> rat" where
  "net_transfer ds nm =
     sum_list (map (\<lambda>d. (if debt_from d = nm then debt_amount d else 0)
                        - (if debt_to d = nm then debt_amount d else 0)) ds)"



text \<open>
  The sum of the balances as a test computes it over doubles, and a double within a
  tolerance of zero.
\<close>

definition balance_sum_f64 :: "balances_f64 \<Rightarrow> f64" where
  "balance_sum_f64 bs = foldl (\<lambda>sum kv. f64_add sum (amount_f64 (snd kv))) (Finite 0) bs"

definition within_tolerance :: "rat \<Rightarrow> f64 \<Rightarrow> bool" where
  "within_tolerance tol x = (case x of Finite a \<Rightarrow> \<bar>a\<bar> \<le> tol | _ \<Rightarrow> False)"

text \<open>
  What the language standard asks of a sort: the result is ordered by the key, holds the
  same elements, and keeps elements with equal keys in their order.
\<close>

definition stable_sorter :: "sorter \<Rightarrow> bool" where
  "stable_sorter srt \<longleftrightarrow>
     (\<forall>key xs. sorted (map key (srt key xs)) \<and> mset (srt key xs) = mset xs) \<and>
     stable_sort_key srt"

text \<open>A second stable sort, by merging, to compare with the insertion sort.\<close>

fun merge_key :: "('a \<Rightarrow> rat) \<Rightarrow> 'a list \<Rightarrow> 'a list \<Rightarrow> 'a list" where
  "merge_key f [] ys = ys"
| "merge_key f (x # xs) [] = x # xs"
| "merge_key f (x # xs) (y # ys) =
     (if f y < f x then y # merge_key f (x # xs) ys else x # merge_key f xs (y # ys))"

fun msort_key :: "('a \<Rightarrow> rat) \<Rightarrow> 'a list \<Rightarrow> 'a list" where
  "msort_key f xs =
     (if length xs < 2 then xs
      else merge_key f (msort_key f (take (length xs div 2) xs))
                       (msort_key f (drop (length xs div 2) xs)))"

declare msort_key.simps [simp del]

subsection \<open>Example budgets\<close>

definition part_A :: tripParticipant where
  "part_A = \<lparr>participant_id = ''pa'', participant_budgetId = ''b1'', participant_name = ''A''\<rparr>"

definition part_B :: tripParticipant where
  "part_B = \<lparr>participant_id = ''pb'', participant_budgetId = ''b1'', participant_name = ''B''\<rparr>"

definition part_C :: tripParticipant where
  "part_C = \<lparr>participant_id = ''pc'', participant_budgetId = ''b1'', participant_name = ''C''\<rparr>"

definition mk_expense :: "string \<Rightarrow> rat \<Rightarrow> nat \<Rightarrow> string \<Rightarrow> string list \<Rightarrow> expense" where
  "mk_expense i a d payer split =
     \<lparr>expense_id = i, expense_budgetId = ''b1'', expense_amount = a, category = ''food'',
      description = ''meal'', expense_date = d, paidById = payer, splitWithIds = split\<rparr>"

definition expense_90 :: expense where
  "expense_90 = mk_expense ''e1'' 90 1 ''pa'' [''pa'', ''pb'', ''pc'']"

definition expense_40 :: expense where
  "expense_40 = mk_expense ''e2'' 40 2 ''pb'' [''pa'', ''pb'']"

definition expense_nosplit :: expense where
  "expense_nosplit = mk_expense ''e3'' 10 3 ''pa'' []"

definition expense_60 :: expense where
  "expense_60 = mk_expense ''e4'' 60 6 ''pb'' [''pa'', ''pb'', ''pc'']"



definition part_D :: tripParticipant where
  "part_D = \<lparr>participant_id = ''pd'', participant_budgetId = ''b1'', participant_name = ''D''\<rparr>"

text \<open>A second participant with the display name B.\<close>

definition part_B_again :: tripParticipant where
  "part_B_again =
     \<lparr>participant_id = ''pc'', participant_budgetId = ''b1'', participant_name = ''B''\<rparr>"

text \<open>100.02 paid by A and split among four.\<close>

definition expense_100_02 :: expense where
  "expense_100_02 = mk_expense ''e7'' (10002/100) 9 ''pa'' [''pa'', ''pb'', ''pc'', ''pd'']"

text \<open>Large amounts: 20,000,000 and \<open>10 ^ 16\<close> split three ways, and \<open>10 ^ 308\<close> twice.\<close>

definition expense_20_million :: expense where
  "expense_20_million = mk_expense ''e8'' 20000000 10 ''pa'' [''pa'', ''pb'', ''pc'']"

definition expense_10_quadrillion :: expense where
  "expense_10_quadrillion = mk_expense ''e9'' (10 ^ 16) 11 ''pa'' [''pa'', ''pb'', ''pc'']"

definition expense_huge_1 :: expense where
  "expense_huge_1 = mk_expense ''e10'' (10 ^ 308) 12 ''pa'' [''pb'']"

definition expense_huge_2 :: expense where
  "expense_huge_2 = mk_expense ''e11'' (10 ^ 308) 13 ''pa'' [''pb'']"

definition mk_budget :: "rat \<Rightarrow> tripParticipant list \<Rightarrow> expense list \<Rightarrow> budget" where
  "mk_budget tb ps es =
     \<lparr>budget_id = ''b1'', budget_tripId = ''t1'', totalBudget = tb, currency = ''USD'',
      participants = ps, expenses = es\<rparr>"

definition budget_abc :: budget where
  "budget_abc = mk_budget 100 [part_A, part_B, part_C] [expense_90]"



text \<open>A database with one trip of user \<open>u1\<close>, its budget of 100 and expenses of 150.\<close>

definition trip_1 :: plannedTrip where
  "trip_1 = \<lparr>trip_id = ''t1'', trip_userId = ''u1''\<rparr>"

definition db_example :: database where
  "db_example =
     \<lparr>plannedTrips = [trip_1],
      tripBudgets = [\<lparr>budget_id = ''b1'', budget_tripId = ''t1'', totalBudget = 100,
                      currency = ''USD''\<rparr>],
      tripParticipants = [part_A, part_B, part_C],
      db_expenses = [expense_90, expense_60]\<rparr>"

section \<open>Properties\<close>

subsection \<open>The balances sum to zero\<close>

lemma keys_fold_update:
  "fst ` set (fold (\<lambda>p bs. AList.update (f p) (g p) bs) ps bs0) = f ` set ps \<union> fst ` set bs0"
  by (induction ps arbitrary: bs0) (auto simp: dom_update)

lemma distinct_fold_update:
  "distinct (map fst bs0) \<Longrightarrow> distinct (map fst (fold (\<lambda>p bs. AList.update (f p) (g p) bs) ps bs0))"
  by (induction ps arbitrary: bs0) (auto simp: distinct_update)

lemma keys_init_balances: "fst ` set (init_balances ps) = participant_id ` set ps"
  by (simp add: init_balances_def keys_fold_update)

lemma distinct_init_balances: "distinct (map fst (init_balances ps))"
  by (simp add: init_balances_def distinct_fold_update)

lemma update_all_zero:
  "\<forall>kv \<in> set bs. amount (snd kv) = 0 \<Longrightarrow> amount v = 0 \<Longrightarrow>
   \<forall>kv \<in> set (AList.update k v bs). amount (snd kv) = 0"
  by (induction bs) auto

lemma fold_update_all_zero:
  "\<forall>kv \<in> set bs0. amount (snd kv) = 0 \<Longrightarrow>
   \<forall>kv \<in> set (fold (\<lambda>p bs. AList.update (participant_id p) \<lparr>name = participant_name p, amount = 0\<rparr> bs) ps bs0).
      amount (snd kv) = 0"
proof (induction ps arbitrary: bs0)
  case Nil
  then show ?case by simp
next
  case (Cons p ps)
  have "\<forall>kv \<in> set (AList.update (participant_id p) \<lparr>name = participant_name p, amount = 0\<rparr> bs0).
          amount (snd kv) = 0"
    by (rule update_all_zero[OF Cons.prems]) simp
  from Cons.IH[OF this] show ?case by simp
qed

lemma balance_sum_all_zero:
  "\<forall>kv \<in> set bs. amount (snd kv) = 0 \<Longrightarrow> balance_sum bs = 0"
  by (induction bs) (auto simp: balance_sum_def)

lemma balance_sum_init: "balance_sum (init_balances ps) = 0"
proof -
  have "\<forall>kv \<in> set (init_balances ps). amount (snd kv) = 0"
    unfolding init_balances_def by (rule fold_update_all_zero) simp
  then show ?thesis by (rule balance_sum_all_zero)
qed

lemma balance_sum_map_entry:
  "distinct (map fst bs) \<Longrightarrow> k \<in> fst ` set bs \<Longrightarrow>
   balance_sum (AList.map_entry k (add_amount d) bs) = balance_sum bs + d"
  by (induction bs) (auto simp: balance_sum_def add_amount_def)

lemma fold_map_entry_props:
  "distinct (map fst bs) \<Longrightarrow> set ks \<subseteq> fst ` set bs \<Longrightarrow>
   distinct (map fst (fold (\<lambda>k b. AList.map_entry k (add_amount d) b) ks bs)) \<and>
   fst ` set (fold (\<lambda>k b. AList.map_entry k (add_amount d) b) ks bs) = fst ` set bs \<and>
   balance_sum (fold (\<lambda>k b. AList.map_entry k (add_amount d) b) ks bs)
     = balance_sum bs + of_nat (length ks) * d"
proof (induction ks arbitrary: bs)
  case Nil
  then show ?case by simp
next
  case (Cons k ks)
  let ?bs = "AList.map_entry k (add_amount d) bs"
  have d: "distinct (map fst ?bs)" using Cons.prems(1) by (rule distinct_map_entry)
  have k: "fst ` set ?bs = fst ` set bs" by (rule dom_map_entry)
  have s: "balance_sum ?bs = balance_sum bs + d"
    using Cons.prems by (intro balance_sum_map_entry) auto
  have "set ks \<subseteq> fst ` set ?bs" using Cons.prems(2) k by auto
  from Cons.IH[OF d this] show ?case using k s by (simp add: algebra_simps)
qed

lemma apply_expense_props:
  assumes "distinct (map fst bs)"
    and "paidById e \<in> fst ` set bs" and "set (splitWithIds e) \<subseteq> fst ` set bs"
  shows "distinct (map fst (apply_expense e bs))"
    and "fst ` set (apply_expense e bs) = fst ` set bs"
    and "balance_sum (apply_expense e bs) = balance_sum bs"
proof -
  let ?n = "length (splitWithIds e)"
  let ?bs1 = "AList.map_entry (paidById e) (add_amount (expense_amount e)) bs"
  let ?d = "- (expense_amount e / of_nat ?n)"
  have d1: "distinct (map fst ?bs1)" using assms(1) by (rule distinct_map_entry)
  have k1: "fst ` set ?bs1 = fst ` set bs" by (rule dom_map_entry)
  have s1: "balance_sum ?bs1 = balance_sum bs + expense_amount e"
    using assms(1,2) by (rule balance_sum_map_entry)
  have sub: "set (splitWithIds e) \<subseteq> fst ` set ?bs1" using assms(3) k1 by simp
  note f = fold_map_entry_props[OF d1 sub, of ?d]
  show "distinct (map fst (apply_expense e bs))"
    using f assms(1) by (simp add: apply_expense_def Let_def)
  show "fst ` set (apply_expense e bs) = fst ` set bs"
    using f k1 by (simp add: apply_expense_def Let_def)
  show "balance_sum (apply_expense e bs) = balance_sum bs"
  proof (cases "?n > 0")
    case True
    then have "of_nat ?n * ?d = - expense_amount e" by simp
    with f s1 True show ?thesis by (simp add: apply_expense_def Let_def)
  next
    case False
    then show ?thesis by (simp add: apply_expense_def)
  qed
qed

lemma fold_apply_expense_sum:
  "distinct (map fst bs) \<Longrightarrow>
   \<forall>e \<in> set es. paidById e \<in> fst ` set bs \<and> set (splitWithIds e) \<subseteq> fst ` set bs \<Longrightarrow>
   balance_sum (fold apply_expense es bs) = balance_sum bs"
proof (induction es arbitrary: bs)
  case Nil
  then show ?case by simp
next
  case (Cons e es)
  have pe: "paidById e \<in> fst ` set bs" and se: "set (splitWithIds e) \<subseteq> fst ` set bs"
    using Cons.prems(2) by auto
  note p = apply_expense_props[OF Cons.prems(1) pe se]
  have "\<forall>e' \<in> set es. paidById e' \<in> fst ` set (apply_expense e bs) \<and>
          set (splitWithIds e') \<subseteq> fst ` set (apply_expense e bs)"
    using Cons.prems(2) p(2) by simp
  from Cons.IH[OF p(1) this] p(3) show ?case by simp
qed

text \<open>
  Claim C1, amended. When every payer and every member of every split is a participant of
  the budget, the balances computed over exact rational arithmetic sum to exactly zero, in
  whatever order the expenses are taken. (Over doubles the sum is zero only up to the
  rounding of the operations, which grows with the amounts; no fixed tolerance holds, as
  the counterexample below shows.)
\<close>

theorem balances_zero_sum:
  assumes "known_participants ps es" and "mset es' = mset es"
  shows "balance_sum (compute_balances ps es') = 0"
proof -
  have "set es' = set es" using assms(2) by (rule mset_eq_setD)
  with assms(1) have "\<forall>e \<in> set es'. paidById e \<in> fst ` set (init_balances ps) \<and>
      set (splitWithIds e) \<subseteq> fst ` set (init_balances ps)"
    by (auto simp: known_participants_def list_all_iff keys_init_balances)
  from fold_apply_expense_sum[OF distinct_init_balances this] show ?thesis
    by (simp add: compute_balances_def balance_sum_init)
qed

theorem balances_zero_sum_witness:
  "known_participants [part_A, part_B, part_C] [expense_90, expense_40] \<and>
   mset [expense_40, expense_90] = mset [expense_90, expense_40] \<and>
   balance_sum (compute_balances [part_A, part_B, part_C] [expense_40, expense_90]) = 0"
proof -
  have k: "known_participants [part_A, part_B, part_C] [expense_90, expense_40]"
    by (simp add: known_participants_def part_A_def part_B_def part_C_def
        expense_90_def expense_40_def mk_expense_def)
  have m: "mset [expense_40, expense_90] = mset [expense_90, expense_40]"
    by (simp add: add_mset_commute)
  from balances_zero_sum[OF k m] k m show ?thesis by simp
qed

subsection \<open>An expense split among nobody\<close>

text \<open>
  Claim C3, as stated (the payer of an expense with an empty split is still credited the
  full amount), fails: the credit is inside the guard on the length of the split, so the
  payer of \<open>expense_nosplit\<close> (amount 10, paid by A, split among nobody) stays at 0.
\<close>

theorem empty_split_credit_counterexample:
  "splitWithIds expense_nosplit = [] \<and> paidById expense_nosplit = ''pa'' \<and>
   expense_amount expense_nosplit = 10 \<and>
   map_option amount (map_of (compute_balances [part_A, part_B, part_C] [expense_nosplit]) ''pa'')
     = Some 0 \<and>
   map_option amount (map_of (compute_balances [part_A, part_B, part_C] [expense_nosplit]) ''pa'')
     \<noteq> Some (expense_amount expense_nosplit)"
  by (simp add: compute_balances_def init_balances_def apply_expense_def
      part_A_def part_B_def part_C_def expense_nosplit_def mk_expense_def)

text \<open>
  Claim C3, amended. An expense whose split is empty changes no balance: the payer is
  not credited and nobody is debited, so the sum of the balances stays what it was.
\<close>

theorem empty_split_changes_nothing:
  "splitWithIds e = [] \<Longrightarrow>
   apply_expense e bs = bs \<and> balance_sum (apply_expense e bs) = balance_sum bs"
  by (simp add: apply_expense_def)

theorem empty_split_changes_nothing_witness:
  "splitWithIds expense_nosplit = [] \<and>
   apply_expense expense_nosplit (init_balances [part_A, part_B, part_C])
     = init_balances [part_A, part_B, part_C] \<and>
   balance_sum (apply_expense expense_nosplit (init_balances [part_A, part_B, part_C]))
     = balance_sum (init_balances [part_A, part_B, part_C])"
proof -
  have h: "splitWithIds expense_nosplit = []"
    by (simp add: expense_nosplit_def mk_expense_def)
  from empty_split_changes_nothing[OF h] h show ?thesis by simp
qed

subsection \<open>The single-expense scenario\<close>

text \<open>
  Claim C6. Participants A, B, C and one expense of 90 paid by A and split among the
  three: the balances are A +60, B -30, C -30, and the transfers are B to A 30, then
  C to A 30 (the stable sort keeps B before C), 60 to A in total.
\<close>

theorem single_expense_scenario:
  "compute_balances [part_A, part_B, part_C] [expense_90] =
     [(''pa'', \<lparr>name = ''A'', amount = 60\<rparr>),
      (''pb'', \<lparr>name = ''B'', amount = - 30\<rparr>),
      (''pc'', \<lparr>name = ''C'', amount = - 30\<rparr>)] \<and>
   map_option debts (resolve_debts (compute_balances [part_A, part_B, part_C] [expense_90])) =
     Some [\<lparr>debt_from = ''B'', debt_to = ''A'', debt_amount = 30\<rparr>,
           \<lparr>debt_from = ''C'', debt_to = ''A'', debt_amount = 30\<rparr>] \<and>
   map_option (\<lambda>s. sum_list (map debt_amount (filter (\<lambda>d. debt_to d = ''A'') (debts s))))
     (resolve_debts (compute_balances [part_A, part_B, part_C] [expense_90])) = Some 60"
  by code_simp

subsection \<open>The matching loop\<close>

text \<open>One run of the loop body, field by field.\<close>

lemma debtors_loop_body:
  "debtors (loop_body s) =
     (debtors s)[debtor_index s := (debtors s ! debtor_index s)
        \<lparr>party_amount := party_amount (debtors s ! debtor_index s) + matched_amount s\<rparr>]"
  by (simp add: loop_body_def Let_def matched_amount_def)

lemma creditors_loop_body:
  "creditors (loop_body s) =
     (creditors s)[creditor_index s := (creditors s ! creditor_index s)
        \<lparr>party_amount := party_amount (creditors s ! creditor_index s) - matched_amount s\<rparr>]"
  by (simp add: loop_body_def Let_def matched_amount_def)




lemma loop_body_lengths [simp]:
  "length (debtors (loop_body s)) = length (debtors s)"
  "length (creditors (loop_body s)) = length (creditors s)"
  by (simp_all add: debtors_loop_body creditors_loop_body)


lemma matched_amount_bounds:
  assumes "party_amount (debtors s ! debtor_index s) \<le> 0"
  shows "party_amount (debtors s ! debtor_index s) + matched_amount s \<le> 0"
    and "0 \<le> party_amount (creditors s ! creditor_index s) - matched_amount s"
  using assms by (auto simp: matched_amount_def min_def)

lemma current_debtor_nonpos:
  "debtors_nonpos s \<Longrightarrow> debtor_index s < length (debtors s) \<Longrightarrow>
   party_amount (debtors s ! debtor_index s) \<le> 0"
  by (simp add: debtors_nonpos_def list_all_length)



lemma loop_body_nonpos:
  assumes "debtors_nonpos s" and "loop_cond s"
  shows "debtors_nonpos (loop_body s)"
proof -
  let ?i = "debtor_index s"
  have i: "?i < length (debtors s)" using assms(2) by (simp add: loop_cond_def)
  have d: "party_amount (debtors s ! ?i) \<le> 0"
    using assms(1) i by (rule current_debtor_nonpos)
  have "party_amount (debtors (loop_body s) ! k) \<le> 0" if "k < length (debtors s)" for k
  proof (cases "k = ?i")
    case True
    with matched_amount_bounds(1)[OF d] i show ?thesis by (simp add: debtors_loop_body)
  next
    case False
    with assms(1) that show ?thesis
      by (simp add: debtors_loop_body debtors_nonpos_def list_all_length)
  qed
  then show ?thesis by (simp add: debtors_nonpos_def list_all_length)
qed




lemma reaches_nonpos:
  "loop_reaches s t \<Longrightarrow> debtors_nonpos s \<Longrightarrow> debtors_nonpos t"
  by (induction rule: loop_reaches.induct) (auto simp: loop_body_nonpos)

subsection \<open>What the loop keeps\<close>


lemma map_party_id_update:
  "map party_id (xs[i := (xs ! i)\<lparr>party_amount := v\<rparr>]) = map party_id xs"
  by (induction xs arbitrary: i) (auto split: nat.splits)



lemma loop_body_ids [simp]:
  "map party_id (debtors (loop_body s)) = map party_id (debtors s)"
  "map party_id (creditors (loop_body s)) = map party_id (creditors s)"
  by (simp_all add: debtors_loop_body creditors_loop_body map_party_id_update)




subsection \<open>The emitted transfers\<close>







subsection \<open>Names of the entries of the balances\<close>










subsection \<open>Applying the transfers\<close>


text \<open>
  The running amounts of the loop against the emitted transfers: each run of the body adds
  the matched amount to the debtor and subtracts it from the creditor, and emits its
  rounding, or nothing when it is at most \<open>1/100\<close>; either way the two differ by at most
  one cent, and each run moves an index.
\<close>

lemma net_transfer_Nil [simp]: "net_transfer [] nm = 0"
  by (simp add: net_transfer_def)


































text \<open>
  The tolerance of one cent fails for more than a creditor left unmatched: 100.02 split
  among four is matched in full, each debtor owing 25.005, and the three transfers are
  emitted as 25.01, which leaves A at -0.015. And the names have to be distinct: with two
  participants named B the two transfers from B are applied to both.
\<close>

lemma rounding_alone_unsettles:
  "known_participants [part_A, part_B, part_C, part_D] [expense_100_02] \<and>
   map_option (map debt_amount \<circ> debts)
     (resolve_debts (compute_balances [part_A, part_B, part_C, part_D] [expense_100_02]))
     = Some [2501/100, 2501/100, 2501/100] \<and>
   map_option (settled_after (compute_balances [part_A, part_B, part_C, part_D] [expense_100_02]))
     (resolve_debts (compute_balances [part_A, part_B, part_C, part_D] [expense_100_02]))
     = Some False"
  by code_simp

lemma same_names_unsettle:
  "known_participants [part_A, part_B, part_B_again] [expense_90] \<and>
   map_option (\<lambda>s. map (\<lambda>kv. amount (snd kv))
       (apply_transfers (debts s) (compute_balances [part_A, part_B, part_B_again] [expense_90])))
     (resolve_debts (compute_balances [part_A, part_B, part_B_again] [expense_90]))
     = Some [0, 30, 30]"
  by code_simp

subsection \<open>The amounts of the emitted transfers\<close>


lemma reaches_step_trans:
  "loop_reaches s t \<Longrightarrow> loop_cond t \<Longrightarrow> loop_reaches s (loop_body t)"
  by (rule loop_reaches.step)




subsection \<open>No transfer from a participant to itself\<close>



subsection \<open>The totals\<close>





subsection \<open>The same input gives the same output\<close>

lemma stable_sorter_sort_key: "stable_sorter sort_key"
  by (simp add: stable_sorter_def stable_sort_key_sort_key)

lemma stable_sorter_unique:
  assumes "stable_sorter srt"
  shows "srt key xs = sort_key key xs"
proof (rule properties_for_sort_key[symmetric])
  show "mset (srt key xs) = mset xs" and "sorted (map key (srt key xs))"
    using assms by (simp_all add: stable_sorter_def)
next
  fix k
  have "(\<lambda>x. key k = key x) = (\<lambda>x. key x = key k)" by auto
  moreover have "filter (\<lambda>x. key x = key k) (srt key xs) = filter (\<lambda>x. key x = key k) xs"
    using assms by (simp add: stable_sorter_def stable_sort_key_def)
  ultimately show "filter (\<lambda>x. key k = key x) (srt key xs) = filter (\<lambda>x. key k = key x) xs"
    by simp
qed

lemma mset_merge_key: "mset (merge_key f xs ys) = mset xs + mset ys"
  by (induction f xs ys rule: merge_key.induct) simp_all

lemma set_merge_key: "set (merge_key f xs ys) = set xs \<union> set ys"
  by (induction f xs ys rule: merge_key.induct) auto

lemma sorted_merge_key:
  "sorted (map f xs) \<Longrightarrow> sorted (map f ys) \<Longrightarrow> sorted (map f (merge_key f xs ys))"
  by (induction f xs ys rule: merge_key.induct) (auto simp: set_merge_key)

lemma filter_merge_key:
  "sorted (map f xs) \<Longrightarrow>
   filter (\<lambda>y. f y = k) (merge_key f xs ys) = filter (\<lambda>y. f y = k) xs @ filter (\<lambda>y. f y = k) ys"
proof (induction f xs ys rule: merge_key.induct)
  case (3 f x xs y ys)
  show ?case
  proof (cases "f y < f x")
    case True
    have "filter (\<lambda>z. f z = k) (x # xs) = []" if "f y = k"
      using that True "3.prems" by (auto simp: filter_empty_conv)
    with True "3.IH"(1) "3.prems" show ?thesis by auto
  next
    case False
    with "3.IH"(2) "3.prems" show ?thesis by simp
  qed
qed simp_all

lemma msort_key_props:
  "mset (msort_key f xs) = mset xs \<and> sorted (map f (msort_key f xs)) \<and>
   filter (\<lambda>y. f y = k) (msort_key f xs) = filter (\<lambda>y. f y = k) xs"
proof (induction f xs rule: msort_key.induct)
  case (1 f xs)
  show ?case
  proof (cases "length xs < 2")
    case True
    then have "length xs = 0 \<or> length xs = 1" by linarith
    then have "sorted (map f xs)" by (auto simp: length_Suc_conv)
    with True show ?thesis by (simp add: msort_key.simps[of f xs])
  next
    case False
    let ?l = "take (length xs div 2) xs" and ?r = "drop (length xs div 2) xs"
    note IH = "1.IH"[OF False]
    have m: "msort_key f xs = merge_key f (msort_key f ?l) (msort_key f ?r)"
      using False by (simp add: msort_key.simps[of f xs])
    have "mset (msort_key f xs) = mset ?l + mset ?r"
      using IH by (simp add: m mset_merge_key)
    also have "\<dots> = mset (?l @ ?r)" by (simp only: mset_append)
    finally have a: "mset (msort_key f xs) = mset xs" by simp
    have b: "sorted (map f (msort_key f xs))"
      using IH by (simp add: m sorted_merge_key)
    have "filter (\<lambda>y. f y = k) (msort_key f xs)
            = filter (\<lambda>y. f y = k) ?l @ filter (\<lambda>y. f y = k) ?r"
      using IH by (simp add: m filter_merge_key)
    also have "\<dots> = filter (\<lambda>y. f y = k) (?l @ ?r)" by (simp only: filter_append)
    finally have c: "filter (\<lambda>y. f y = k) (msort_key f xs) = filter (\<lambda>y. f y = k) xs" by simp
    from a b c show ?thesis by simp
  qed
qed

lemma stable_sorter_msort_key: "stable_sorter msort_key"
  by (simp add: stable_sorter_def stable_sort_key_def msort_key_props)

text \<open>
  Claim C8. The handler calls the sort of the engine, and the standard leaves the
  algorithm open but requires it to be stable. Two runs on the same participants,
  expenses and total budget, each with any stable sort, give the same answer: the same
  transfers in the same order and the same totals.
\<close>

theorem settlement_deterministic:
  assumes "stable_sorter srt1" and "stable_sorter srt2"
  shows "settlement_with srt1 b = settlement_with srt2 b \<and>
         get_budget_with srt1 db userId tripId = get_budget_with srt2 db userId tripId"
proof -
  have "srt1 = srt2"
    using stable_sorter_unique[OF assms(1)] stable_sorter_unique[OF assms(2)]
    by (intro ext) simp
  then show ?thesis by simp
qed

theorem settlement_deterministic_witness:
  "stable_sorter sort_key \<and> stable_sorter msort_key \<and>
   settlement_with sort_key budget_abc = settlement_with msort_key budget_abc \<and>
   get_budget_with sort_key db_example ''u1'' ''t1''
     = get_budget_with msort_key db_example ''u1'' ''t1''"
  using settlement_deterministic[OF stable_sorter_sort_key stable_sorter_msort_key,
      of budget_abc db_example "''u1''" "''t1''"]
    stable_sorter_sort_key stable_sorter_msort_key
  by simp

subsection \<open>Deleting an expense\<close>

text \<open>
  Claim C10. The handler that deletes an expense looks at the expense identifier only:
  the answer and the database after the call are the same for every caller and every
  trip identifier in the path, and an expense that exists is deleted whoever asks.
\<close>

theorem delete_ignores_caller:
  "delete_expense db userId1 tripId1 expenseId = delete_expense db userId2 tripId2 expenseId \<and>
   ((\<exists>e \<in> set (db_expenses db). expense_id e = expenseId) \<longrightarrow>
      fst (delete_expense db userId1 tripId1 expenseId) = Success_json \<and>
      expenseId \<notin> expense_id ` set (db_expenses (snd (delete_expense db userId1 tripId1 expenseId))))"
  by (auto simp: delete_expense_def)

theorem delete_ignores_caller_witness:
  "(\<exists>e \<in> set (db_expenses db_example). expense_id e = ''e1'') \<and>
   get_budget db_example ''u2'' ''t1'' = Some (Error_json 403 ''Not authorized to view this budget'') \<and>
   delete_expense db_example ''u2'' ''t9'' ''e1'' = delete_expense db_example ''u1'' ''t1'' ''e1'' \<and>
   fst (delete_expense db_example ''u2'' ''t9'' ''e1'') = Success_json \<and>
   ''e1'' \<notin> expense_id ` set (db_expenses (snd (delete_expense db_example ''u2'' ''t9'' ''e1'')))"
proof -
  have e: "\<exists>e \<in> set (db_expenses db_example). expense_id e = ''e1''"
    by (simp add: db_example_def expense_90_def mk_expense_def)
  have g: "get_budget db_example ''u2'' ''t1''
             = Some (Error_json 403 ''Not authorized to view this budget'')"
    by code_simp
  from delete_ignores_caller[of db_example "''u2''" "''t9''" "''e1''" "''u1''" "''t1''"] e g
  show ?thesis by blast
qed

section \<open>Properties of the handler over doubles\<close>

subsection \<open>Rounding\<close>

lemma powi_interval_unique:
  fixes y :: rat
  assumes "2 powi e \<le> y" "y < 2 powi (e + 1)" "2 powi e' \<le> y" "y < 2 powi (e' + 1)"
  shows "e = e'"
proof (rule ccontr)
  assume "e \<noteq> e'"
  then consider "e + 1 \<le> e'" | "e' + 1 \<le> e" by linarith
  then show False
  proof cases
    case 1
    then have "(2::rat) powi (e + 1) \<le> 2 powi e'" by (intro power_int_increasing) simp_all
    with assms show False by linarith
  next
    case 2
    then have "(2::rat) powi (e' + 1) \<le> 2 powi e" by (intro power_int_increasing) simp_all
    with assms show False by linarith
  qed
qed

lemma exponent_of_bounds:
  assumes "x \<noteq> 0"
  shows "2 powi (exponent_of x) \<le> \<bar>x\<bar>" and "\<bar>x\<bar> < 2 powi (exponent_of x + 1)"
proof -
  obtain p q where pq: "quotient_of \<bar>x\<bar> = (p, q)" by (cases "quotient_of \<bar>x\<bar>")
  then have q: "0 < q" by (rule quotient_of_denom_pos)
  have x: "\<bar>x\<bar> = of_int p / of_int q" using pq by (rule quotient_of_div)
  have "0 < \<bar>x\<bar>" using assms by simp
  with x q have p: "0 < p" by (simp add: zero_less_divide_iff)
  let ?P = "bitlen p" and ?Q = "bitlen q"
  have P1: "1 \<le> ?P" and Q1: "1 \<le> ?Q" using p q by (simp_all add: bitlen_alt_def)
  from bitlen_bounds[OF p] have "(2::int) ^ nat (?P - 1) \<le> p" "p < 2 ^ nat ?P" by simp_all
  then have "(of_int (2 ^ nat (?P - 1)) :: rat) \<le> of_int p" "(of_int p :: rat) < of_int (2 ^ nat ?P)"
    by (simp_all only: of_int_le_iff of_int_less_iff)
  then have pb: "(2::rat) powi (?P - 1) \<le> of_int p" "(of_int p :: rat) < 2 powi ?P"
    using P1 by (simp_all add: power_int_def)
  from bitlen_bounds[OF q] have "(2::int) ^ nat (?Q - 1) \<le> q" "q < 2 ^ nat ?Q" by simp_all
  then have "(of_int (2 ^ nat (?Q - 1)) :: rat) \<le> of_int q" "(of_int q :: rat) < of_int (2 ^ nat ?Q)"
    by (simp_all only: of_int_le_iff of_int_less_iff)
  then have qb: "(2::rat) powi (?Q - 1) \<le> of_int q" "(of_int q :: rat) < 2 powi ?Q"
    using Q1 by (simp_all add: power_int_def)
  have qpos: "(0::rat) < of_int q" using q by simp
  let ?a = "?P - ?Q"
  have lo: "(2::rat) powi (?a - 1) < \<bar>x\<bar>"
  proof -
    have "(2::rat) powi (?a - 1) * of_int q < 2 powi (?a - 1) * 2 powi ?Q"
      using qb(2) by (intro mult_strict_left_mono) simp_all
    also have "\<dots> = 2 powi (?P - 1)" by (simp add: power_int_add[symmetric])
    also have "\<dots> \<le> of_int p" by (rule pb(1))
    finally show ?thesis using qpos by (simp add: x pos_less_divide_eq)
  qed
  have hi: "\<bar>x\<bar> < (2::rat) powi (?a + 1)"
  proof -
    have "of_int p < (2::rat) powi ?P" by (rule pb(2))
    also have "\<dots> = 2 powi (?a + 1) * 2 powi (?Q - 1)" by (simp add: power_int_add[symmetric])
    also have "\<dots> \<le> 2 powi (?a + 1) * of_int q"
      using qb(1) by (intro mult_left_mono) simp_all
    finally show ?thesis using qpos by (simp add: x pos_divide_less_eq)
  qed
  have e: "exponent_of x = (if 2 powi ?a \<le> \<bar>x\<bar> then ?a else ?a - 1)"
    by (simp add: exponent_of_def pq Let_def)
  show "2 powi (exponent_of x) \<le> \<bar>x\<bar>" using lo by (simp add: e)
  show "\<bar>x\<bar> < 2 powi (exponent_of x + 1)" using hi by (auto simp: e)
qed

lemma exponent_of_eqI:
  assumes "2 powi e \<le> \<bar>x\<bar>" and "\<bar>x\<bar> < 2 powi (e + 1)"
  shows "exponent_of x = e"
proof -
  have "(0::rat) < 2 powi e" by simp
  with assms(1) have "0 < \<bar>x\<bar>" by linarith
  then have "x \<noteq> 0" by simp
  from exponent_of_bounds[OF this] assms show ?thesis
    by (intro powi_interval_unique[of _ "\<bar>x\<bar>"]) 
qed

lemma round_even_eqI:
  assumes "\<bar>z - of_int n\<bar> < 1/2"
  shows "round_even z = n"
proof -
  from assms have a: "of_int n - 1/2 < z" and b: "z < of_int n + 1/2" by linarith+
  have "\<lfloor>z\<rfloor> = n \<or> \<lfloor>z\<rfloor> = n - 1" using a b by linarith
  then show ?thesis
  proof
    assume f: "\<lfloor>z\<rfloor> = n"
    with b have "z - of_int \<lfloor>z\<rfloor> < 1/2" by simp
    with f show ?thesis by (simp add: round_even_def Let_def)
  next
    assume f: "\<lfloor>z\<rfloor> = n - 1"
    with a have "1/2 < z - of_int \<lfloor>z\<rfloor>" by simp
    with f show ?thesis by (simp add: round_even_def Let_def)
  qed
qed

lemma round_f64_eqI':
  assumes "2 powi e \<le> \<bar>x\<bar>" and "\<bar>x\<bar> < 2 powi (e + 1)" and "- 1022 \<le> e"
    and "round_even (x / 2 powi (e - 52)) = n"
    and "\<bar>of_int n * 2 powi (e - 52)\<bar> < (2::rat) powi 1024"
  shows "round_f64 x = Finite (of_int n * 2 powi (e - 52))"
proof -
  have "(0::rat) < 2 powi e" by simp
  with assms(1) have "0 < \<bar>x\<bar>" by linarith
  then have x: "x \<noteq> 0" by simp
  have e: "exponent_of x = e" using assms(1,2) by (rule exponent_of_eqI)
  have m: "max e (- 1022) = e" using assms(3) by simp
  show ?thesis using x assms(5) by (simp add: round_f64_def e m assms(4) Let_def)
qed

lemma round_even_tie:
  assumes "z = of_int f + 1/2"
  shows "round_even z = (if even f then f else f + 1)"
proof -
  have "\<lfloor>z\<rfloor> = f" unfolding assms by linarith
  then show ?thesis by (simp add: round_even_def Let_def assms)
qed

lemma round_f64_eqI:
  assumes "2 powi e \<le> \<bar>x\<bar>" and "\<bar>x\<bar> < 2 powi (e + 1)" and "- 1022 \<le> e"
    and "\<bar>x / 2 powi (e - 52) - of_int n\<bar> < 1/2"
    and "\<bar>of_int n * 2 powi (e - 52)\<bar> < (2::rat) powi 1024"
  shows "round_f64 x = Finite (of_int n * 2 powi (e - 52))"
proof -
  have "(0::rat) < 2 powi e" by simp
  with assms(1) have "0 < \<bar>x\<bar>" by linarith
  then have x: "x \<noteq> 0" by simp
  have e: "exponent_of x = e" using assms(1,2) by (rule exponent_of_eqI)
  have m: "max e (- 1022) = e" using assms(3) by simp
  have r: "round_even (x / 2 powi (e - 52)) = n" using assms(4) by (rule round_even_eqI)
  show ?thesis using x assms(5) by (simp add: round_f64_def e m r Let_def)
qed

lemma round_even_ge:
  assumes "of_int m \<le> z"
  shows "m \<le> round_even z"
proof -
  have "m \<le> \<lfloor>z\<rfloor>" using assms by (simp add: le_floor_iff)
  then show ?thesis by (auto simp: round_even_def Let_def)
qed

lemma round_f64_overflow:
  assumes "2 powi 1024 \<le> x"
  shows "round_f64 x = PosInf"
proof -
  have pos: "0 < x" using assms by (rule less_le_trans[rotated]) simp
  then have x: "x \<noteq> 0" and ax: "\<bar>x\<bar> = x" by simp_all
  let ?e = "exponent_of x"
  have b: "2 powi ?e \<le> x" "x < 2 powi (?e + 1)" using exponent_of_bounds[OF x] ax by simp_all
  have "(2::rat) powi 1024 < 2 powi (?e + 1)" using assms b(2) by linarith
  have e: "1024 \<le> ?e"
  proof (rule ccontr)
    assume "\<not> 1024 \<le> ?e"
    then have "?e + 1 \<le> 1024" by simp
    then have "(2::rat) powi (?e + 1) \<le> 2 powi 1024" by (intro power_int_increasing) simp_all
    with \<open>(2::rat) powi 1024 < 2 powi (?e + 1)\<close> show False by linarith
  qed
  then have m: "max ?e (- 1022) = ?e" by simp
  let ?u = "(2::rat) powi (?e - 52)"
  have u: "0 < ?u" by simp
  have "(2::rat) powi (52 + (?e - 52)) = 2 powi 52 * 2 powi (?e - 52)"
    by (rule power_int_add) simp
  then have A: "of_int (2 ^ 52) * ?u = (2::rat) powi ?e" by simp
  with b(1) have "of_int (2 ^ 52) * ?u \<le> x" by simp
  then have "of_int (2 ^ 52) \<le> x / ?u" using u by (simp add: pos_le_divide_eq)
  then have "2 ^ 52 \<le> round_even (x / ?u)" by (rule round_even_ge)
  then have "(of_int (2 ^ 52) :: rat) \<le> of_int (round_even (x / ?u))" by (simp only: of_int_le_iff)
  then have "of_int (2 ^ 52) * ?u \<le> of_int (round_even (x / ?u)) * ?u"
    using u by (intro mult_right_mono) simp_all
  moreover have "(2::rat) powi 1024 \<le> 2 powi ?e" using e by (intro power_int_increasing) simp_all
  ultimately have y: "(2::rat) powi 1024 \<le> of_int (round_even (x / ?u)) * ?u"
    unfolding A by linarith
  then have "(2::rat) powi 1024 \<le> \<bar>of_int (round_even (x / ?u)) * ?u\<bar>" by linarith
  with x pos show ?thesis by (simp add: round_f64_def m Let_def)
qed

lemma round_even_le:
  assumes "z \<le> of_int m"
  shows "round_even z \<le> m"
proof (cases "z = of_int m")
  case True
  then have "\<lfloor>z\<rfloor> = m" by simp
  with True show ?thesis by (simp add: round_even_def Let_def)
next
  case False
  with assms have "z < of_int m" by simp
  then have "\<lfloor>z\<rfloor> < m" by (simp add: floor_less_iff)
  then show ?thesis by (auto simp: round_even_def Let_def)
qed

lemma round_f64_overflow_neg:
  assumes "x \<le> - (2 powi 1024)"
  shows "round_f64 x = NegInf"
proof -
  have "(0::rat) < 2 powi 1024" by simp
  with assms have neg: "x < 0" by linarith
  then have x: "x \<noteq> 0" and ax: "\<bar>x\<bar> = - x" by simp_all
  let ?e = "exponent_of x"
  have b: "2 powi ?e \<le> - x" "- x < 2 powi (?e + 1)" using exponent_of_bounds[OF x] ax by simp_all
  have "(2::rat) powi 1024 < 2 powi (?e + 1)" using assms b(2) by linarith
  have e: "1024 \<le> ?e"
  proof (rule ccontr)
    assume "\<not> 1024 \<le> ?e"
    then have "?e + 1 \<le> 1024" by simp
    then have "(2::rat) powi (?e + 1) \<le> 2 powi 1024" by (intro power_int_increasing) simp_all
    with \<open>(2::rat) powi 1024 < 2 powi (?e + 1)\<close> show False by linarith
  qed
  then have m: "max ?e (- 1022) = ?e" by simp
  let ?u = "(2::rat) powi (?e - 52)"
  have u: "0 < ?u" by simp
  have "(2::rat) powi (52 + (?e - 52)) = 2 powi 52 * 2 powi (?e - 52)"
    by (rule power_int_add) simp
  then have A: "of_int (2 ^ 52) * ?u = (2::rat) powi ?e" by simp
  define k :: rat where "k = of_int (- (2 ^ 52))"
  have "k * ?u = - (2 powi ?e)" unfolding k_def using A by simp
  with b(1) have "x \<le> k * ?u" by linarith
  then have "x / ?u \<le> k" using u by (simp only: pos_divide_le_eq)
  then have "x / ?u \<le> of_int (- (2 ^ 52))" by (simp only: k_def)
  then have "round_even (x / ?u) \<le> - (2 ^ 52)" by (rule round_even_le)
  then have "(of_int (round_even (x / ?u)) :: rat) \<le> of_int (- (2 ^ 52))" by (simp only: of_int_le_iff)
  then have "of_int (round_even (x / ?u)) * ?u \<le> of_int (- (2 ^ 52)) * ?u"
    using u by (intro mult_right_mono) simp_all
  moreover have "of_int (- (2 ^ 52)) * ?u = - (of_int (2 ^ 52) * ?u)" by simp
  moreover have "(2::rat) powi 1024 \<le> 2 powi ?e" using e by (intro power_int_increasing) simp_all
  ultimately have "of_int (round_even (x / ?u)) * ?u \<le> - ((2::rat) powi 1024)"
    unfolding A by linarith
  then have "(2::rat) powi 1024 \<le> \<bar>of_int (round_even (x / ?u)) * ?u\<bar>" by linarith
  with x neg show ?thesis by (simp add: round_f64_def m Let_def)
qed

lemma round_f64_eps: "f64_eps = Finite (5764607523034235 / 576460752303423488)"
proof -
  have "round_f64 (1 / 100) = Finite (of_int 5764607523034235 * 2 powi (- 7 - 52))"
    by (rule round_f64_eqI) simp_all
  then show ?thesis by (simp add: f64_eps_def)
qed

lemma round_20_million:
  "round_f64 20000000 = Finite 20000000"
  "round_f64 (20000000 / 3) = Finite (7158278826666667 / 1073741824)"
  "round_f64 (- (7158278826666667 / 1073741824)) = Finite (- (7158278826666667 / 1073741824))"
  "round_f64 (14316557653333333 / 1073741824) = Finite (3579139413333333 / 268435456)"
  "round_f64 (3579139413333333 / 268435456) = Finite (3579139413333333 / 268435456)"
  "round_f64 (7158278826666665 / 1073741824) = Finite (7158278826666665 / 1073741824)"
  "round_f64 (- (1 / 536870912)) = Finite (- (1 / 536870912))"
proof -
  have "round_f64 20000000 = Finite (of_int 5368709120000000 * 2 powi (24 - 52))"
    by (rule round_f64_eqI) simp_all
  then show "round_f64 20000000 = Finite 20000000" by simp
  have "round_f64 (20000000 / 3) = Finite (of_int 7158278826666667 * 2 powi (22 - 52))"
    by (rule round_f64_eqI) simp_all
  then show "round_f64 (20000000 / 3) = Finite (7158278826666667 / 1073741824)" by simp
  have "round_f64 (- (7158278826666667 / 1073741824)) = Finite (of_int (- 7158278826666667) * 2 powi (22 - 52))"
    by (rule round_f64_eqI) simp_all
  then show "round_f64 (- (7158278826666667 / 1073741824)) = Finite (- (7158278826666667 / 1073741824))" by simp
  have "round_f64 (14316557653333333 / 1073741824) = Finite (of_int 7158278826666666 * 2 powi (23 - 52))"
    by (rule round_f64_eqI') (simp_all add: round_even_tie[of _ 7158278826666666])
  then show "round_f64 (14316557653333333 / 1073741824) = Finite (3579139413333333 / 268435456)" by simp
  have "round_f64 (3579139413333333 / 268435456) = Finite (of_int 7158278826666666 * 2 powi (23 - 52))"
    by (rule round_f64_eqI) simp_all
  then show "round_f64 (3579139413333333 / 268435456) = Finite (3579139413333333 / 268435456)" by simp
  have "round_f64 (7158278826666665 / 1073741824) = Finite (of_int 7158278826666665 * 2 powi (22 - 52))"
    by (rule round_f64_eqI) simp_all
  then show "round_f64 (7158278826666665 / 1073741824) = Finite (7158278826666665 / 1073741824)" by simp
  have "round_f64 (- (1 / 536870912)) = Finite (of_int (- 4503599627370496) * 2 powi (- 29 - 52))"
    by (rule round_f64_eqI) simp_all
  then show "round_f64 (- (1 / 536870912)) = Finite (- (1 / 536870912))" by simp
qed

lemma round_10_quadrillion:
  "round_f64 10000000000000000 = Finite 10000000000000000"
  "round_f64 (10000000000000000 / 3) = Finite (6666666666666667 / 2)"
  "round_f64 (- (6666666666666667 / 2)) = Finite (- (6666666666666667 / 2))"
  "round_f64 (13333333333333333 / 2) = Finite 6666666666666666"
  "round_f64 6666666666666666 = Finite 6666666666666666"
  "round_f64 (6666666666666665 / 2) = Finite (6666666666666665 / 2)"
  "round_f64 (- 1) = Finite (- 1)"
proof -
  have "round_f64 10000000000000000 = Finite (of_int 5000000000000000 * 2 powi (53 - 52))"
    by (rule round_f64_eqI) simp_all
  then show "round_f64 10000000000000000 = Finite 10000000000000000" by simp
  have "round_f64 (10000000000000000 / 3) = Finite (of_int 6666666666666667 * 2 powi (51 - 52))"
    by (rule round_f64_eqI) simp_all
  then show "round_f64 (10000000000000000 / 3) = Finite (6666666666666667 / 2)" by simp
  have "round_f64 (- (6666666666666667 / 2)) = Finite (of_int (- 6666666666666667) * 2 powi (51 - 52))"
    by (rule round_f64_eqI) simp_all
  then show "round_f64 (- (6666666666666667 / 2)) = Finite (- (6666666666666667 / 2))" by simp
  have "round_f64 (13333333333333333 / 2) = Finite (of_int 6666666666666666 * 2 powi (52 - 52))"
    by (rule round_f64_eqI') (simp_all add: round_even_tie[of _ 6666666666666666])
  then show "round_f64 (13333333333333333 / 2) = Finite 6666666666666666" by simp
  have "round_f64 6666666666666666 = Finite (of_int 6666666666666666 * 2 powi (52 - 52))"
    by (rule round_f64_eqI) simp_all
  then show "round_f64 6666666666666666 = Finite 6666666666666666" by simp
  have "round_f64 (6666666666666665 / 2) = Finite (of_int 6666666666666665 * 2 powi (51 - 52))"
    by (rule round_f64_eqI) simp_all
  then show "round_f64 (6666666666666665 / 2) = Finite (6666666666666665 / 2)" by simp
  have "round_f64 (- 1) = Finite (of_int (- 4503599627370496) * 2 powi (0 - 52))"
    by (rule round_f64_eqI) simp_all
  then show "round_f64 (- 1) = Finite (- 1)" by simp
qed

lemma round_huge:
  "round_f64 100000000000000000000000000000000000000000000000000000000000000000000000000000000000000000000000000000000000000000000000000000000000000000000000000000000000000000000000000000000000000000000000000000000000000000000000000000000000000000000000000000000000000000000000000000000000000000000000000000000000000000000 = Finite 100000000000000001097906362944045541740492309677311846336810682903157585404911491537163328978494688899061249669721172515611590283743140088328307009198146046031271664502933027185697489699588559043338384466165001178426897626212945177628091195786707458122783970171784415105291802893207873272974885715430223118336"
  "round_f64 100000000000000001097906362944045541740492309677311846336810682903157585404911491537163328978494688899061249669721172515611590283743140088328307009198146046031271664502933027185697489699588559043338384466165001178426897626212945177628091195786707458122783970171784415105291802893207873272974885715430223118336 = Finite 100000000000000001097906362944045541740492309677311846336810682903157585404911491537163328978494688899061249669721172515611590283743140088328307009198146046031271664502933027185697489699588559043338384466165001178426897626212945177628091195786707458122783970171784415105291802893207873272974885715430223118336"
  "round_f64 (- 100000000000000001097906362944045541740492309677311846336810682903157585404911491537163328978494688899061249669721172515611590283743140088328307009198146046031271664502933027185697489699588559043338384466165001178426897626212945177628091195786707458122783970171784415105291802893207873272974885715430223118336) = Finite (- 100000000000000001097906362944045541740492309677311846336810682903157585404911491537163328978494688899061249669721172515611590283743140088328307009198146046031271664502933027185697489699588559043338384466165001178426897626212945177628091195786707458122783970171784415105291802893207873272974885715430223118336)"
proof -
  have "round_f64 100000000000000000000000000000000000000000000000000000000000000000000000000000000000000000000000000000000000000000000000000000000000000000000000000000000000000000000000000000000000000000000000000000000000000000000000000000000000000000000000000000000000000000000000000000000000000000000000000000000000000000000 = Finite (of_int 5010420900022432 * 2 powi (1023 - 52))"
    by (rule round_f64_eqI) simp_all
  then show "round_f64 100000000000000000000000000000000000000000000000000000000000000000000000000000000000000000000000000000000000000000000000000000000000000000000000000000000000000000000000000000000000000000000000000000000000000000000000000000000000000000000000000000000000000000000000000000000000000000000000000000000000000000000 = Finite 100000000000000001097906362944045541740492309677311846336810682903157585404911491537163328978494688899061249669721172515611590283743140088328307009198146046031271664502933027185697489699588559043338384466165001178426897626212945177628091195786707458122783970171784415105291802893207873272974885715430223118336" by simp
  have "round_f64 100000000000000001097906362944045541740492309677311846336810682903157585404911491537163328978494688899061249669721172515611590283743140088328307009198146046031271664502933027185697489699588559043338384466165001178426897626212945177628091195786707458122783970171784415105291802893207873272974885715430223118336 = Finite (of_int 5010420900022432 * 2 powi (1023 - 52))"
    by (rule round_f64_eqI) simp_all
  then show "round_f64 100000000000000001097906362944045541740492309677311846336810682903157585404911491537163328978494688899061249669721172515611590283743140088328307009198146046031271664502933027185697489699588559043338384466165001178426897626212945177628091195786707458122783970171784415105291802893207873272974885715430223118336 = Finite 100000000000000001097906362944045541740492309677311846336810682903157585404911491537163328978494688899061249669721172515611590283743140088328307009198146046031271664502933027185697489699588559043338384466165001178426897626212945177628091195786707458122783970171784415105291802893207873272974885715430223118336" by simp
  have "round_f64 (- 100000000000000001097906362944045541740492309677311846336810682903157585404911491537163328978494688899061249669721172515611590283743140088328307009198146046031271664502933027185697489699588559043338384466165001178426897626212945177628091195786707458122783970171784415105291802893207873272974885715430223118336) = Finite (of_int (- 5010420900022432) * 2 powi (1023 - 52))"
    by (rule round_f64_eqI) simp_all
  then show "round_f64 (- 100000000000000001097906362944045541740492309677311846336810682903157585404911491537163328978494688899061249669721172515611590283743140088328307009198146046031271664502933027185697489699588559043338384466165001178426897626212945177628091195786707458122783970171784415105291802893207873272974885715430223118336) = Finite (- 100000000000000001097906362944045541740492309677311846336810682903157585404911491537163328978494688899061249669721172515611590283743140088328307009198146046031271664502933027185697489699588559043338384466165001178426897626212945177628091195786707458122783970171784415105291802893207873272974885715430223118336)" by simp
qed

lemma round_huge_overflow:
  "round_f64 200000000000000002195812725888091083480984619354623692673621365806315170809822983074326657956989377798122499339442345031223180567486280176656614018396292092062543329005866054371394979399177118086676768932330002356853795252425890355256182391573414916245567940343568830210583605786415746545949771430860446236672 = PosInf"
  "round_f64 (- 200000000000000002195812725888091083480984619354623692673621365806315170809822983074326657956989377798122499339442345031223180567486280176656614018396292092062543329005866054371394979399177118086676768932330002356853795252425890355256182391573414916245567940343568830210583605786415746545949771430860446236672) = NegInf"
proof -
  show "round_f64 200000000000000002195812725888091083480984619354623692673621365806315170809822983074326657956989377798122499339442345031223180567486280176656614018396292092062543329005866054371394979399177118086676768932330002356853795252425890355256182391573414916245567940343568830210583605786415746545949771430860446236672 = PosInf" by (rule round_f64_overflow) simp
  show "round_f64 (- 200000000000000002195812725888091083480984619354623692673621365806315170809822983074326657956989377798122499339442345031223180567486280176656614018396292092062543329005866054371394979399177118086676768932330002356853795252425890355256182391573414916245567940343568830210583605786415746545949771430860446236672) = NegInf" by (rule round_f64_overflow_neg) simp
qed

subsection \<open>The sum of the balances\<close>

lemma balances_20_million:
  "compute_balances_f64 [part_A, part_B, part_C] [expense_20_million] =
     [(''pa'', \<lparr>name_f64 = ''A'', amount_f64 = Finite (3579139413333333 / 268435456)\<rparr>),
      (''pb'', \<lparr>name_f64 = ''B'', amount_f64 = Finite (- (7158278826666667 / 1073741824))\<rparr>),
      (''pc'', \<lparr>name_f64 = ''C'', amount_f64 = Finite (- (7158278826666667 / 1073741824))\<rparr>)]"
  by (simp add: compute_balances_f64_def init_balances_f64_def apply_expense_f64_def f64_sub_def
      part_A_def part_B_def part_C_def expense_20_million_def mk_expense_def round_20_million)

lemma balances_10_quadrillion:
  "compute_balances_f64 [part_A, part_B, part_C] [expense_10_quadrillion] =
     [(''pa'', \<lparr>name_f64 = ''A'', amount_f64 = Finite 6666666666666666\<rparr>),
      (''pb'', \<lparr>name_f64 = ''B'', amount_f64 = Finite (- (6666666666666667 / 2))\<rparr>),
      (''pc'', \<lparr>name_f64 = ''C'', amount_f64 = Finite (- (6666666666666667 / 2))\<rparr>)]"
  by (simp add: compute_balances_f64_def init_balances_f64_def apply_expense_f64_def f64_sub_def
      part_A_def part_B_def part_C_def expense_10_quadrillion_def mk_expense_def round_10_quadrillion)

text \<open>
  Claim C1, as stated (the balances sum to zero within \<open>10 ^ - 9\<close> over doubles), fails.
  20,000,000 paid by A and split among A, B and C, all known: the share is rounded, the
  balance of A is rounded again, and the three balances sum to \<open>- 2 ^ - 29\<close>, about
  \<open>- 1.86 * 10 ^ - 9\<close>. With \<open>10 ^ 16\<close> the sum is -1.
\<close>

theorem float_sum_counterexample:
  "known_participants [part_A, part_B, part_C] [expense_20_million] \<and>
   balance_sum_f64 (compute_balances_f64 [part_A, part_B, part_C] [expense_20_million])
     = Finite (- (1 / 2 ^ 29)) \<and>
   \<not> within_tolerance (1 / 10 ^ 9)
       (balance_sum_f64 (compute_balances_f64 [part_A, part_B, part_C] [expense_20_million])) \<and>
   known_participants [part_A, part_B, part_C] [expense_10_quadrillion] \<and>
   balance_sum_f64 (compute_balances_f64 [part_A, part_B, part_C] [expense_10_quadrillion])
     = Finite (- 1)"
proof -
  have k: "known_participants [part_A, part_B, part_C] [expense_20_million]"
    "known_participants [part_A, part_B, part_C] [expense_10_quadrillion]"
    by (simp_all add: known_participants_def part_A_def part_B_def part_C_def
        expense_20_million_def expense_10_quadrillion_def mk_expense_def)
  have a: "balance_sum_f64 (compute_balances_f64 [part_A, part_B, part_C] [expense_20_million])
     = Finite (- (1 / 2 ^ 29))"
    by (simp add: balance_sum_f64_def balances_20_million round_20_million)
  have b: "balance_sum_f64 (compute_balances_f64 [part_A, part_B, part_C] [expense_10_quadrillion])
     = Finite (- 1)"
    by (simp add: balance_sum_f64_def balances_10_quadrillion round_10_quadrillion)
  have c: "\<not> within_tolerance (1 / 10 ^ 9) (Finite (- (1 / 2 ^ 29)))"
    by (simp add: within_tolerance_def)
  from k a b c show ?thesis by simp
qed

subsection \<open>The matching loop\<close>

lemma stuck_loop_never_ends:
  assumes "loop_cond_f64 s" and "loop_body_f64 s = s"
  shows "resolve_loop_f64 s = None"
proof (rule ccontr)
  assume "resolve_loop_f64 s \<noteq> None"
  then obtain y where y: "resolve_loop_f64 s = Some y" by auto
  have "s \<noteq> s"
  proof (rule resolve_loop_f64.raw_induct[where P = "\<lambda>t y. t \<noteq> s", OF _ y])
    fix f t z
    assume IH: "\<And>x y. f x = Some y \<Longrightarrow> x \<noteq> s"
      and st: "(if loop_cond_f64 t then f (loop_body_f64 t) else Some t) = Some z"
    show "t \<noteq> s"
    proof
      assume "t = s"
      with st assms have "f s = Some z" by simp
      from IH[OF this] show False by simp
    qed
  qed
  then show False by simp
qed

lemma balances_huge:
  "compute_balances_f64 [part_A, part_B] [expense_huge_1, expense_huge_2] =
     [(''pa'', \<lparr>name_f64 = ''A'', amount_f64 = PosInf\<rparr>),
      (''pb'', \<lparr>name_f64 = ''B'', amount_f64 = NegInf\<rparr>)]"
  by (simp add: compute_balances_f64_def init_balances_f64_def apply_expense_f64_def f64_sub_def
      part_A_def part_B_def expense_huge_1_def expense_huge_2_def mk_expense_def
      round_huge round_huge_overflow)

text \<open>
  Claim C9 (the matching loop ends on every input) does not hold of the handler. Two
  expenses of \<open>10 ^ 308\<close>, each paid by A and split with B alone: the balance of A
  overflows to \<open>+Infinity\<close> and that of B to \<open>-Infinity\<close>. The loop matches \<open>Infinity\<close>, both
  amounts become \<^verbatim>\<open>NaN\<close>, neither test \<^verbatim>\<open>< 0.01\<close> holds, no index moves, and every later
  run of the body leaves the state as it is: the loop never ends.
\<close>

theorem loop_never_ends_on_overflow:
  "compute_balances_f64 [part_A, part_B] [expense_huge_1, expense_huge_2] =
     [(''pa'', \<lparr>name_f64 = ''A'', amount_f64 = PosInf\<rparr>),
      (''pb'', \<lparr>name_f64 = ''B'', amount_f64 = NegInf\<rparr>)] \<and>
   resolve_debts_f64 (compute_balances_f64 [part_A, part_B] [expense_huge_1, expense_huge_2]) = None"
proof -
  let ?s0 = "\<lparr>debtors_f64 = [\<lparr>party_id_f64 = ''pb'', party_name_f64 = ''B'', party_amount_f64 = NegInf\<rparr>],
               creditors_f64 = [\<lparr>party_id_f64 = ''pa'', party_name_f64 = ''A'', party_amount_f64 = PosInf\<rparr>],
               debtor_index_f64 = 0, creditor_index_f64 = 0, debts_f64 = []\<rparr>"
  let ?s1 = "\<lparr>debtors_f64 = [\<lparr>party_id_f64 = ''pb'', party_name_f64 = ''B'', party_amount_f64 = NaN\<rparr>],
               creditors_f64 = [\<lparr>party_id_f64 = ''pa'', party_name_f64 = ''A'', party_amount_f64 = NaN\<rparr>],
               debtor_index_f64 = 0, creditor_index_f64 = 0,
               debts_f64 = [\<lparr>debt_from_f64 = ''B'', debt_to_f64 = ''A'', debt_amount_f64 = PosInf\<rparr>]\<rparr>"
  have i: "init_state_f64 (compute_balances_f64 [part_A, part_B] [expense_huge_1, expense_huge_2]) = ?s0"
    by (simp add: balances_huge init_state_f64_def collect_debtors_f64_def collect_creditors_f64_def
        to_party_f64_def round_f64_eps)
  have c0: "loop_cond_f64 ?s0" and c1: "loop_cond_f64 ?s1" by (simp_all add: loop_cond_f64_def)
  have b0: "loop_body_f64 ?s0 = ?s1"
    by (simp add: loop_body_f64_def f64_sub_def round_f64_eps)
  have b1: "loop_body_f64 ?s1 = ?s1"
    by (simp add: loop_body_f64_def f64_sub_def round_f64_eps)
  have "resolve_loop_f64 ?s0 = resolve_loop_f64 ?s1"
    using c0 b0 by (subst resolve_loop_f64.simps) simp
  also have "\<dots> = None" using c1 b1 by (rule stuck_loop_never_ends)
  finally have "resolve_loop_f64 ?s0 = None" .
  then show ?thesis unfolding resolve_debts_f64_def i by (simp add: balances_huge)
qed

end
